theory Spec2Isabelle
  imports Complex_Main "HOL-Library.Sublist" "HOL-Library.AList"
begin

section \<open>Python strings\<close>

text \<open>
  A Python \<^verbatim>\<open>str\<close> is a sequence of Unicode code points, and \<^verbatim>\<open>len\<close> counts code
  points. A string is therefore modelled as a list of natural numbers, one per code point;
  \<open>py\<close> embeds an ASCII literal.
\<close>

type_synonym pystr = "nat list"

definition py :: "string \<Rightarrow> pystr" where
  "py s = map of_char s"

definition NL :: nat where
  "NL = 10"

text \<open>\<^verbatim>\<open>s.startswith(p)\<close>, \<^verbatim>\<open>s.endswith(p)\<close> and \<^verbatim>\<open>p in s\<close>.\<close>

definition str_startswith :: "pystr \<Rightarrow> pystr \<Rightarrow> bool" where
  "str_startswith s p = prefix p s"

definition str_endswith :: "pystr \<Rightarrow> pystr \<Rightarrow> bool" where
  "str_endswith s p = suffix p s"

definition str_contains :: "pystr \<Rightarrow> pystr \<Rightarrow> bool" where
  "str_contains p s = sublist p s"

text \<open>
  \<^verbatim>\<open>s.replace(old, new)\<close>: every non-overlapping occurrence of \<open>old\<close>, found scanning from
  the left, is replaced. For an empty \<open>old\<close> Python puts \<open>new\<close> before every character and
  at the end.
\<close>

function str_replace :: "pystr \<Rightarrow> pystr \<Rightarrow> pystr \<Rightarrow> pystr" where
  "str_replace old new [] = (if old = [] then new else [])"
| "str_replace old new (c # cs) =
     (if old = [] then new @ concat (map (\<lambda>x. x # new) (c # cs))
      else if prefix old (c # cs) then new @ str_replace old new (drop (length old) (c # cs))
      else c # str_replace old new cs)"
  by pat_completeness auto
termination
  by (relation "measure (\<lambda>(old, new, s). length s)") auto

text \<open>
  The characters \<^verbatim>\<open>str.strip()\<close> removes: the code points Python classifies as
  whitespace.
\<close>

definition is_space :: "nat \<Rightarrow> bool" where
  "is_space c \<longleftrightarrow>
     (9 \<le> c \<and> c \<le> 13) \<or> (28 \<le> c \<and> c \<le> 32) \<or> c = 133 \<or> c = 160 \<or> c = 5760 \<or>
     (8192 \<le> c \<and> c \<le> 8202) \<or> c = 8232 \<or> c = 8233 \<or> c = 8239 \<or> c = 8287 \<or> c = 12288"

definition str_strip :: "pystr \<Rightarrow> pystr" where
  "str_strip s = rev (dropWhile is_space (rev (dropWhile is_space s)))"

text \<open>\<^verbatim>\<open>s.split('\n')\<close>: the source only ever splits on one character.\<close>

fun str_split :: "nat \<Rightarrow> pystr \<Rightarrow> pystr list" where
  "str_split sep [] = [[]]"
| "str_split sep (c # cs) =
     (if c = sep then [] # str_split sep cs
      else (case str_split sep cs of [] \<Rightarrow> [[c]] | l # ls \<Rightarrow> (c # l) # ls))"

text \<open>\<^verbatim>\<open>sep.join(xs)\<close>.\<close>

fun str_join :: "pystr \<Rightarrow> pystr list \<Rightarrow> pystr" where
  "str_join sep [] = []"
| "str_join sep [x] = x"
| "str_join sep (x # y # ys) = x @ sep @ str_join sep (y # ys)"

section \<open>Dictionaries\<close>

text \<open>
  A Python \<^verbatim>\<open>dict\<close> keeps its keys in insertion order, and an assignment to an existing
  key replaces the value where the key already stands. That is \<^const>\<open>AList.update\<close> on an
  association list. \<^verbatim>\<open>d.update(e)\<close> assigns the items of \<open>e\<close> in order.
\<close>

type_synonym ('k, 'v) dict = "('k \<times> 'v) list"

definition dict_update :: "('k, 'v) dict \<Rightarrow> ('k, 'v) dict \<Rightarrow> ('k, 'v) dict" where
  "dict_update d e = foldl (\<lambda>acc kv. AList.update (fst kv) (snd kv) acc) d e"

section \<open>The project file parser (\<^verbatim>\<open>CodeGenius._parse_project_files\<close>)\<close>

definition FILE_START :: pystr where
  "FILE_START = py ''=== DOSYA:''"

definition FILE_END :: pystr where
  "FILE_END = py ''=== DOSYA SONU ===''"

text \<open>The three local variables of the loop.\<close>

record parse_state =
  files :: "(pystr, pystr) dict"
  current_file :: "pystr option"
  current_content :: "pystr list"

definition parse_init :: parse_state where
  "parse_init = \<lparr>files = [], current_file = None, current_content = []\<rparr>"

text \<open>
  \<^verbatim>\<open>if current_file:\<close> is Python truthiness: \<^verbatim>\<open>None\<close> and the empty string are both
  false. \<open>save_current\<close> is the guarded assignment
  \<^verbatim>\<open>if current_file: files[current_file] = '\n'.join(current_content)\<close> that both marker
  branches perform.
\<close>

definition in_file :: "parse_state \<Rightarrow> bool" where
  "in_file st = (case current_file st of None \<Rightarrow> False | Some p \<Rightarrow> p \<noteq> [])"

definition save_current :: "parse_state \<Rightarrow> (pystr, pystr) dict" where
  "save_current st =
     (case current_file st of
        None \<Rightarrow> files st
      | Some p \<Rightarrow>
          if p \<noteq> [] then AList.update p (str_join [NL] (current_content st)) (files st)
          else files st)"

definition marker_path :: "pystr \<Rightarrow> pystr" where
  "marker_path line = str_strip (str_replace (py ''==='') [] (str_replace FILE_START [] line))"

text \<open>The body of the loop over the lines.\<close>

definition parse_line :: "parse_state \<Rightarrow> pystr \<Rightarrow> parse_state" where
  "parse_line st line =
     (if str_startswith line FILE_START then
        \<lparr>files = save_current st, current_file = Some (marker_path line), current_content = []\<rparr>
      else if str_startswith line FILE_END then
        \<lparr>files = save_current st, current_file = None, current_content = []\<rparr>
      else if in_file st then
        st\<lparr>current_content := current_content st @ [line]\<rparr>
      else st)"

definition parse_lines :: "pystr list \<Rightarrow> parse_state" where
  "parse_lines ls = foldl parse_line parse_init ls"

definition parse_project_files :: "pystr \<Rightarrow> (pystr, pystr) dict" where
  "parse_project_files generated_text = files (parse_lines (str_split NL generated_text))"

subsection \<open>The delimited format\<close>

text \<open>
  The format \<^verbatim>\<open>generate_project\<close> asks the backend for: a line
  \<^verbatim>\<open>=== DOSYA: <path> ===\<close>, the lines of the file, a line \<^verbatim>\<open>=== DOSYA SONU ===\<close>.
  \<open>serialize_project\<close> writes a list of (path, content) pairs in that format.
\<close>

definition file_start_line :: "pystr \<Rightarrow> pystr" where
  "file_start_line path = py ''=== DOSYA: '' @ path @ py '' ===''"

definition file_block :: "pystr \<times> pystr \<Rightarrow> pystr list" where
  "file_block pc = file_start_line (fst pc) # str_split NL (snd pc) @ [FILE_END]"

definition serialize_project :: "(pystr \<times> pystr) list \<Rightarrow> pystr" where
  "serialize_project ps = str_join [NL] (concat (map file_block ps))"

text \<open>
  A path survives the parser's clean-up of the start line when it is not empty, is one
  line, holds no \<^verbatim>\<open>===\<close> and neither starts nor ends with whitespace. A content line is
  ordinary when the parser takes it for neither marker.
\<close>

definition marker_safe :: "pystr \<Rightarrow> bool" where
  "marker_safe path \<longleftrightarrow>
     path \<noteq> [] \<and> NL \<notin> set path \<and> \<not> str_contains (py ''==='') path \<and>
     \<not> is_space (hd path) \<and> \<not> is_space (last path)"

definition ordinary_line :: "pystr \<Rightarrow> bool" where
  "ordinary_line l \<longleftrightarrow> \<not> str_startswith l FILE_START \<and> \<not> str_startswith l FILE_END"

definition well_formed_block :: "pystr \<times> pystr \<Rightarrow> bool" where
  "well_formed_block pc \<longleftrightarrow>
     marker_safe (fst pc) \<and> list_all ordinary_line (str_split NL (snd pc))"

text \<open>
  The specification's reading of the parser's result, for comparison with the code: every
  content has its leading and trailing blank lines removed.
\<close>

definition blank_line :: "pystr \<Rightarrow> bool" where
  "blank_line l = list_all is_space l"

definition spec_trim_blank_lines :: "pystr \<Rightarrow> pystr" where
  "spec_trim_blank_lines c =
     str_join [NL] (rev (dropWhile blank_line (rev (dropWhile blank_line (str_split NL c)))))"

definition spec_trimmed_bundle :: "(pystr \<times> pystr) list \<Rightarrow> (pystr \<times> pystr) list" where
  "spec_trimmed_bundle ps = map (\<lambda>pc. (fst pc, spec_trim_blank_lines (snd pc))) ps"

section \<open>The planned generation (\<^verbatim>\<open>AdvancedCodeGenius\<close>)\<close>

subsection \<open>The instance, the backend and what lies outside the repository\<close>

text \<open>
  Every step asks the backend through \<^verbatim>\<open>self.generate(prompt, max_tokens=..., temperature=...)\<close>.
  The backend is a field of the instance: the answer to the \<open>n\<close>-th request of a run, or
  \<open>None\<close> when the call raises. The run's state is the list of requests issued so far.
  \<^verbatim>\<open>__init__\<close> sets \<open>quality_threshold\<close> to 0.9 and \<open>max_retries\<close> to 3; any other values
  can be assigned afterwards.
\<close>

datatype error = BackendError | AttributeError

record request =
  rq_prompt :: pystr
  rq_max_tokens :: nat
  rq_temperature :: real

record genius =
  backend :: "nat \<Rightarrow> request \<Rightarrow> pystr option"
  quality_threshold :: real
  max_retries :: nat

definition generate :: "genius \<Rightarrow> request \<Rightarrow> request list \<Rightarrow> (error + pystr) \<times> request list" where
  "generate self rq calls =
     (case backend self (length calls) rq of
        None \<Rightarrow> (Inl BackendError, calls @ [rq])
      | Some answer \<Rightarrow> (Inr answer, calls @ [rq]))"

text \<open>
  What \<^verbatim>\<open>json.loads\<close> returns. A float is kept as the text of its literal; no step computes
  with one.
\<close>

datatype pyval =
    PyNone
  | PyBool bool
  | PyInt int
  | PyFloat pystr
  | PyStr pystr
  | PyList "pyval list"
  | PyDict "(pystr \<times> pyval) list"

text \<open>
  Parts the steps use that are not code of the repository, or that the file has lost:
  \<^item> \<open>json_loads\<close>: the standard decoder, \<open>None\<close> when it raises;
  \<^item> \<open>format_value\<close>: the text an f-string puts for a decoded value (\<^verbatim>\<open>{file_spec}\<close>);
  \<^item> \<open>test_prompt_rest\<close>: the text of the test prompt after the embedded code, which the
    file breaks off before;
  \<^item> \<open>doc_prompt\<close>: the documentation prompt, of which the file keeps only the opening quotes.
\<close>

record plan =
  p_requirements :: pystr
  p_architecture :: pystr
  plan_text :: pystr

record externals =
  json_loads :: "pystr \<Rightarrow> pyval option"
  format_value :: "pyval \<Rightarrow> pystr"
  test_prompt_rest :: pystr
  doc_prompt :: "plan \<Rightarrow> (pystr, pystr) dict \<Rightarrow> pystr"

subsection \<open>\<^verbatim>\<open>_clean_code\<close>\<close>

text \<open>
  \<^verbatim>\<open>re.sub(pattern, '', s)\<close> for a pattern that is an ordered choice of literal strings:
  scanning from the left, the first alternative that matches at a position is deleted.
  The two patterns of the source, \<^verbatim>\<open>```python\n? \<close> and \<^verbatim>\<open>```\n?\<close>, are such choices, the
  alternative with the newline first because \<^verbatim>\<open>?\<close> is greedy.
\<close>

function re_sub_delete :: "pystr list \<Rightarrow> pystr \<Rightarrow> pystr" where
  "re_sub_delete alts [] = []"
| "re_sub_delete alts (c # cs) =
     (case find (\<lambda>a. a \<noteq> [] \<and> prefix a (c # cs)) alts of
        None \<Rightarrow> c # re_sub_delete alts cs
      | Some a \<Rightarrow> re_sub_delete alts (drop (length a) (c # cs)))"
  by pat_completeness auto
termination
  by (relation "measure (\<lambda>(alts, s). length s)") (auto simp: find_Some_iff)

definition FENCE :: pystr where
  "FENCE = [96, 96, 96]"

definition code_start_tokens :: "pystr list" where
  "code_start_tokens =
     [py ''import '', py ''from '', py ''class '', py ''def '', py ''@'', py ''#'', py '' '', [9]]"

definition clean_line :: "pystr list \<times> bool \<Rightarrow> pystr \<Rightarrow> pystr list \<times> bool" where
  "clean_line acc line =
     (if list_ex (str_startswith (str_strip line)) code_start_tokens \<or> snd acc
      then (fst acc @ [line], True)
      else if str_strip line = [] then (fst acc @ [line], snd acc)
      else acc)"

definition clean_code :: "pystr \<Rightarrow> pystr" where
  "clean_code code =
     (let code1 = re_sub_delete [FENCE @ py ''python'' @ [NL, 32], FENCE @ py ''python ''] code;
          code2 = re_sub_delete [FENCE @ [NL], FENCE] code1;
          cleaned_lines = fst (foldl clean_line ([], False) (str_split NL code2))
      in str_strip (str_join [NL] cleaned_lines))"

subsection \<open>\<^verbatim>\<open>_check_quality\<close>\<close>

text \<open>
  The dictionary \<open>checks\<close>, in the order the source writes it. The score is the number of
  true entries over the number of entries; the division and the comparison with 0.8 are
  done on reals. Python's floating-point division gives, for each of the six possible
  counts over 5, the float nearest the exact quotient, and 4 / 5 is the float the literal
  0.8 denotes, so the comparison has the same outcome.
\<close>

definition quality_checks :: "pystr \<Rightarrow> (pystr \<times> bool) list" where
  "quality_checks code =
     [(py ''has_docstrings'', str_contains [34, 34, 34] code \<or> str_contains [39, 39, 39] code),
      (py ''has_type_hints'', str_contains (py ''->'') code \<or> str_contains (py '': '') code),
      (py ''has_error_handling'',
         str_contains (py ''try:'') code \<or> str_contains (py ''except'') code),
      (py ''reasonable_length'', length code > 100),
      (py ''no_placeholder'',
         \<not> str_contains (py ''TODO'') code \<and> \<not> str_contains (py ''FIXME'') code)]"

definition quality_score :: "pystr \<Rightarrow> real" where
  "quality_score code =
     real (length (filter snd (quality_checks code))) / real (length (quality_checks code))"

definition check_quality :: "genius \<Rightarrow> pystr \<Rightarrow> bool" where
  "check_quality self code \<longleftrightarrow> quality_score code \<ge> 8 / 10"


subsection \<open>The steps\<close>

definition planning_prompt :: "pystr \<Rightarrow> pystr \<Rightarrow> pystr" where
  "planning_prompt requirements architecture = concat
     [[NL], py ''Sen bir '', [252], py ''st d'', [252], py ''zey yaz'', [305], py ''l'', [305],
      py ''m mimar'', [305], py ''s'', [305], py ''n.  A'', [351], py ''a'', [287, 305],
      py ''daki gereksinimleri analiz et ve detayl'', [305], py '' bir plan olu'', [351],
      py ''tur: '', [NL, NL], py ''Gereksinimler:'', [NL], requirements, [NL, NL],
      py ''Mimari:  '', architecture, [NL, NL, 350], py ''u formatta cevap ver: '', [NL, NL],
      py ''## Analiz'', [NL], py ''[Gereksinimler analizi]'', [NL, NL], py ''## Bile'', [351],
      py ''enler'', [NL], py ''- Bile'', [351], py ''en 1: [a'', [231, 305], py ''klama]'',
      [NL], py ''- Bile'', [351], py ''en 2: [a'', [231, 305], py ''klama]'', [NL, NL],
      py ''## Dosya Yap'', [305], py ''s'', [305, NL], py ''['', [214],
      py ''nerilen dosya yap'', [305], py ''s'', [305], py '']'', [NL, NL],
      py ''## Teknik Kararlar'', [NL], py ''- Teknoloji 1: [neden se'', [231], py ''ildi]'',
      [NL], py ''- Pattern 1: [neden kullan'', [305], py ''lacak]'', [NL, NL],
      py ''## Riskler ve '', [199, 246], py ''z'', [252], py ''mler'', [NL],
      py ''[Potansiyel sorunlar ve '', [231, 246], py ''z'', [252], py ''mleri]'', [NL]]"

definition create_plan ::
  "genius \<Rightarrow> pystr \<Rightarrow> pystr \<Rightarrow> request list \<Rightarrow> (error + plan) \<times> request list" where
  "create_plan self requirements architecture calls =
     (case generate self
         \<lparr>rq_prompt = planning_prompt requirements architecture, rq_max_tokens = 1500,
          rq_temperature = 3 / 10\<rparr> calls of
        (Inl e, calls') \<Rightarrow> (Inl e, calls')
      | (Inr text, calls') \<Rightarrow>
          (Inr \<lparr>p_requirements = requirements, p_architecture = architecture, plan_text = text\<rparr>,
           calls'))"

definition structure_prompt :: "plan \<Rightarrow> pystr" where
  "structure_prompt plan = concat
     [[NL, 350], py ''u plan i'', [231], py ''in detayl'', [305], py '' dosya yap'', [305],
      py ''s'', [305], py '' olu'', [351], py ''tur:'', [NL, NL], plan_text plan, [NL, NL],
      py ''Her dosya i'', [231], py ''in '', [351], py ''unlar'', [305], py '' belirt:'', [NL],
      py ''- Dosya yolu'', [NL], py ''- Sorumluluklar'', [NL], py ''- Ana fonksiyonlar/s'',
      [305], py ''n'', [305], py ''flar'', [NL], py ''- Ba'', [287, 305], py ''ml'', [305],
      py ''l'', [305], py ''klar'', [NL, NL], py ''JSON format'', [305], py ''nda ver:'', [NL],
      py ''{'', [NL], py ''    '', [34], py ''path/to/file. py'', [34], py '': {'', [NL],
      py ''        '', [34], py ''description'', [34], py '': '', [34], py ''.. .'', [34],
      py '','', [NL], py ''        '', [34], py ''responsibilities'', [34], py '': ['', [34],
      py ''... '', [34], py ''],'', [NL], py ''        '', [34], py ''main_components'', [34],
      py '': ['', [34], py ''...'', [34], py ''],'', [NL], py ''        '', [34],
      py ''dependencies'', [34], py '': ['', [34], py ''...'', [34], py '']'', [NL],
      py ''    }'', [NL], py ''}'', [NL]]"

definition default_structure :: pyval where
  "default_structure = PyDict
     [(py ''main. py'', PyDict [(py ''description'', PyStr (py ''Main application file''))]),
      (py ''utils.py'', PyDict [(py ''description'', PyStr (py ''Utility functions''))])]"

text \<open>
  The \<^verbatim>\<open>try\<close> block holds only the decoding, and its bare \<^verbatim>\<open>except\<close> catches whatever the
  decoder raises. The request to the backend stands before the block.
\<close>

definition design_structure ::
  "externals \<Rightarrow> genius \<Rightarrow> plan \<Rightarrow> request list \<Rightarrow> (error + pyval) \<times> request list" where
  "design_structure ext self plan calls =
     (case generate self
         \<lparr>rq_prompt = structure_prompt plan, rq_max_tokens = 2000, rq_temperature = 2 / 10\<rparr> calls of
        (Inl e, calls') \<Rightarrow> (Inl e, calls')
      | (Inr structure_text, calls') \<Rightarrow>
          (Inr (case json_loads ext structure_text of
                  None \<Rightarrow> default_structure
                | Some structure \<Rightarrow> structure),
           calls'))"

definition file_prompt :: "externals \<Rightarrow> pystr \<Rightarrow> pyval \<Rightarrow> plan \<Rightarrow> pystr" where
  "file_prompt ext file_path file_spec plan = concat
     [[NL, 350], py ''u dosyay'', [305], py '' yaz:  '', file_path, [NL, NL],
      py ''Proje Plan'', [305], py '':'', [NL], plan_text plan, [NL, NL], py ''Dosya '', [214],
      py ''zellikleri:'', [NL], format_value ext file_spec, [NL, NL, 214], py ''NEML'', [304],
      py '' KURALLAR:'', [NL], py ''1. Production-ready kod yaz'', [NL],
      py ''2. Type hints kullan'', [NL], py ''3. Docstring ekle (Google style)'', [NL],
      py ''4. Error handling ekle'', [NL], py ''5. Logging ekle'', [NL],
      py ''6. Clean code prensiplerine uy'', [NL], py ''7. SOLID prensipleri uygula'', [NL],
      py ''8. Security best practices'', [NL], py ''9. Performance optimize et'', [NL],
      py ''10. Test edilebilir yaz'', [NL, NL], py ''SADECE KOD VER, a'', [231, 305],
      py ''klama ekleme: '', [NL]]"

definition generate_file_step ::
  "externals \<Rightarrow> genius \<Rightarrow> pystr \<Rightarrow> pyval \<Rightarrow> plan \<Rightarrow> request list \<Rightarrow>
   (error + pystr) \<times> request list" where
  "generate_file_step ext self file_path file_spec plan calls =
     (case generate self
         \<lparr>rq_prompt = file_prompt ext file_path file_spec plan, rq_max_tokens = 2000,
          rq_temperature = 4 / 10\<rparr> calls of
        (Inl e, calls') \<Rightarrow> (Inl e, calls')
      | (Inr code, calls') \<Rightarrow> (Inr (clean_code code), calls'))"

text \<open>
  \<open>generate_file_step\<close> is \<^verbatim>\<open>_generate_file\<close>. The feedback prompt is an f-string without a placeholder: none of the three arguments
  of \<^verbatim>\<open>_regenerate_with_feedback\<close> reaches it.
\<close>

definition feedback_prompt :: pystr where
  "feedback_prompt = concat
     [[NL, 350], py ''u kodu iyile'', [351], py ''tir: '', [NL, NL, 304], py ''yile'', [351],
      py ''tirmeler:'', [NL], py ''- Eksik docstring varsa ekle'', [NL],
      py ''- Type hints ekle'', [NL], py ''- Error handling g'', [252, 231], py ''lendir'',
      [NL], py ''- Daha temiz kod yaz'', [NL], py ''- Best practices uygula'', [NL, NL, 304],
      py ''Y'', [304], py ''LE'', [350], py ''T'', [304], py ''R'', [304], py ''LM'',
      [304, 350], py '' KOD: '', [NL]]"

definition regenerate_with_feedback ::
  "genius \<Rightarrow> pystr \<Rightarrow> pyval \<Rightarrow> pystr \<Rightarrow> request list \<Rightarrow> (error + pystr) \<times> request list" where
  "regenerate_with_feedback self file_path file_spec previous_code calls =
     (case generate self
         \<lparr>rq_prompt = feedback_prompt, rq_max_tokens = 2000, rq_temperature = 3 / 10\<rparr> calls of
        (Inl e, calls') \<Rightarrow> (Inl e, calls')
      | (Inr improved, calls') \<Rightarrow> (Inr (clean_code improved), calls'))"

text \<open>
  The body of the loop of \<^verbatim>\<open>generate_with_planning\<close> over \<^verbatim>\<open>structure.items()\<close>: one file
  specification, the dictionary \<open>fs\<close> of the files generated so far.
\<close>

definition generate_one ::
  "externals \<Rightarrow> genius \<Rightarrow> plan \<Rightarrow> (pystr, pystr) dict \<Rightarrow> pystr \<times> pyval \<Rightarrow> request list \<Rightarrow>
   (error + (pystr, pystr) dict) \<times> request list" where
  "generate_one ext self plan fs item calls =
     (case generate_file_step ext self (fst item) (snd item) plan calls of
        (Inl e, calls') \<Rightarrow> (Inl e, calls')
      | (Inr code, calls') \<Rightarrow>
          if check_quality self code then (Inr (AList.update (fst item) code fs), calls')
          else
            (case regenerate_with_feedback self (fst item) (snd item) code calls' of
               (Inl e, calls'') \<Rightarrow> (Inl e, calls'')
             | (Inr code', calls'') \<Rightarrow> (Inr (AList.update (fst item) code' fs), calls'')))"

fun generate_all ::
  "externals \<Rightarrow> genius \<Rightarrow> plan \<Rightarrow> (pystr, pystr) dict \<Rightarrow> (pystr \<times> pyval) list \<Rightarrow> request list \<Rightarrow>
   (error + (pystr, pystr) dict) \<times> request list" where
  "generate_all ext self plan fs [] calls = (Inr fs, calls)"
| "generate_all ext self plan fs (item # items) calls =
     (case generate_one ext self plan fs item calls of
        (Inl e, calls') \<Rightarrow> (Inl e, calls')
      | (Inr fs', calls') \<Rightarrow> generate_all ext self plan fs' items calls')"

text \<open>\<^verbatim>\<open>structure.items()\<close>: only a dictionary has the method.\<close>

definition items_of :: "pyval \<Rightarrow> error + (pystr \<times> pyval) list" where
  "items_of v = (case v of PyDict d \<Rightarrow> Inr d | _ \<Rightarrow> Inl AttributeError)"

subsection \<open>\<^verbatim>\<open>_generate_comprehensive_tests\<close>\<close>

definition needs_test :: "pystr \<Rightarrow> bool" where
  "needs_test file_path \<longleftrightarrow>
     str_endswith file_path (py ''.py'') \<and> \<not> str_contains (py ''test_'') file_path"

definition test_path :: "pystr \<Rightarrow> pystr" where
  "test_path file_path = py ''tests/test_'' @ str_replace (py ''/'') (py ''_'') file_path"

definition test_prompt :: "externals \<Rightarrow> pystr \<Rightarrow> pystr" where
  "test_prompt ext code = concat
     [[NL, 350], py ''u kod i'', [231], py ''in kapsaml'', [305], py '' pytest testleri yaz:'',
      [NL, NL, 96, 96, 96], py ''python'', [NL], code, [NL], test_prompt_rest ext]"

text \<open>
  The source file breaks off inside the prompt's string literal, after the line that embeds
  \<^verbatim>\<open>{code}\<close>, and the lines that follow have lost four columns of indentation. The loop is
  read with the indentation restored: the request and the assignment to \<open>test_files\<close>
  belong to the body of the \<^verbatim>\<open>if\<close>, the \<^verbatim>\<open>return\<close> follows the loop.
\<close>

fun tests_loop ::
  "externals \<Rightarrow> genius \<Rightarrow> (pystr \<times> pystr) list \<Rightarrow> (pystr, pystr) dict \<Rightarrow> request list \<Rightarrow>
   (error + (pystr, pystr) dict) \<times> request list" where
  "tests_loop ext self [] test_files calls = (Inr test_files, calls)"
| "tests_loop ext self (item # items) test_files calls =
     (if needs_test (fst item) then
        (case generate self
            \<lparr>rq_prompt = test_prompt ext (snd item), rq_max_tokens = 1500,
             rq_temperature = 4 / 10\<rparr> calls of
           (Inl e, calls') \<Rightarrow> (Inl e, calls')
         | (Inr test_code, calls') \<Rightarrow>
             tests_loop ext self items
               (AList.update (test_path (fst item)) (clean_code test_code) test_files) calls')
      else tests_loop ext self items test_files calls)"

definition generate_comprehensive_tests ::
  "externals \<Rightarrow> genius \<Rightarrow> (pystr, pystr) dict \<Rightarrow> request list \<Rightarrow>
   (error + (pystr, pystr) dict) \<times> request list" where
  "generate_comprehensive_tests ext self fs calls = tests_loop ext self fs [] calls"

subsection \<open>\<^verbatim>\<open>_generate_documentation\<close> and \<^verbatim>\<open>generate_with_planning\<close>\<close>

definition generate_documentation ::
  "externals \<Rightarrow> genius \<Rightarrow> plan \<Rightarrow> (pystr, pystr) dict \<Rightarrow> request list \<Rightarrow>
   (error + pystr) \<times> request list" where
  "generate_documentation ext self plan fs calls =
     generate self
       \<lparr>rq_prompt = doc_prompt ext plan fs, rq_max_tokens = 2000, rq_temperature = 5 / 10\<rparr> calls"

definition add_tests ::
  "externals \<Rightarrow> genius \<Rightarrow> bool \<Rightarrow> (pystr, pystr) dict \<Rightarrow> request list \<Rightarrow>
   (error + (pystr, pystr) dict) \<times> request list" where
  "add_tests ext self include_tests fs calls =
     (if include_tests then
        (case generate_comprehensive_tests ext self fs calls of
           (Inl e, calls') \<Rightarrow> (Inl e, calls')
         | (Inr test_files, calls') \<Rightarrow> (Inr (dict_update fs test_files), calls'))
      else (Inr fs, calls))"

definition add_readme ::
  "externals \<Rightarrow> genius \<Rightarrow> plan \<Rightarrow> (pystr, pystr) dict \<Rightarrow> request list \<Rightarrow>
   (error + (pystr, pystr) dict) \<times> request list" where
  "add_readme ext self plan fs calls =
     (case generate_documentation ext self plan fs calls of
        (Inl e, calls') \<Rightarrow> (Inl e, calls')
      | (Inr readme, calls') \<Rightarrow> (Inr (AList.update (py ''README. md'') readme fs), calls'))"

text \<open>
  The five steps in sequence. The parameter \<open>max_tokens\<close> of the source is never read and
  is left out.
\<close>

definition generate_with_planning ::
  "externals \<Rightarrow> genius \<Rightarrow> pystr \<Rightarrow> bool \<Rightarrow> pystr \<Rightarrow> request list \<Rightarrow>
   (error + (pystr, pystr) dict) \<times> request list" where
  "generate_with_planning ext self requirements include_tests architecture calls =
     (case create_plan self requirements architecture calls of
        (Inl e, calls1) \<Rightarrow> (Inl e, calls1)
      | (Inr plan, calls1) \<Rightarrow>
          (case design_structure ext self plan calls1 of
             (Inl e, calls2) \<Rightarrow> (Inl e, calls2)
           | (Inr structure, calls2) \<Rightarrow>
               (case items_of structure of
                  Inl e \<Rightarrow> (Inl e, calls2)
                | Inr items \<Rightarrow>
                    (case generate_all ext self plan [] items calls2 of
                       (Inl e, calls3) \<Rightarrow> (Inl e, calls3)
                     | (Inr fs, calls3) \<Rightarrow>
                         (case add_tests ext self include_tests fs calls3 of
                            (Inl e, calls4) \<Rightarrow> (Inl e, calls4)
                          | (Inr fs', calls4) \<Rightarrow> add_readme ext self plan fs' calls4)))))"

section \<open>Notions used in the statements\<close>

subsection \<open>Streams of the parser\<close>

text \<open>
  A line leaves the path \<open>p\<close> alone when it is not a start marker that opens \<open>p\<close>. The
  two streams are the lines \<open>pre\<close> followed by a complete block for \<open>p\<close>, and the same
  followed by the lines \<open>mid\<close>, a second complete block for \<open>p\<close> and the lines \<open>post\<close>.
\<close>

definition opens_other :: "pystr \<Rightarrow> pystr \<Rightarrow> bool" where
  "opens_other p l \<longleftrightarrow> (str_startswith l FILE_START \<longrightarrow> marker_path l \<noteq> p)"

definition first_block_stream :: "pystr list \<Rightarrow> pystr \<Rightarrow> pystr \<Rightarrow> pystr" where
  "first_block_stream pre p c1 = str_join [NL] (pre @ file_block (p, c1))"

definition two_block_stream ::
  "pystr list \<Rightarrow> pystr \<Rightarrow> pystr \<Rightarrow> pystr list \<Rightarrow> pystr \<Rightarrow> pystr list \<Rightarrow> pystr" where
  "two_block_stream pre p c1 mid c2 post =
     str_join [NL] (pre @ file_block (p, c1) @ mid @ file_block (p, c2) @ post)"

text \<open>
  Two invariants of the loop, for a path \<open>p\<close>: the entry of \<open>p\<close> stands at index \<open>i\<close> with
  content \<open>c\<close> and no block for \<open>p\<close> is open; and \<open>p\<close> has no entry and none is open.
\<close>

definition holds_at :: "pystr \<Rightarrow> pystr \<Rightarrow> nat \<Rightarrow> parse_state \<Rightarrow> bool" where
  "holds_at p c i st \<longleftrightarrow> i < length (files st) \<and> files st ! i = (p, c) \<and> current_file st \<noteq> Some p"

definition absent :: "pystr \<Rightarrow> parse_state \<Rightarrow> bool" where
  "absent p st \<longleftrightarrow> p \<notin> fst ` set (files st) \<and> current_file st \<noteq> Some p"

subsection \<open>Requests of the planned generation\<close>

text \<open>
  The requests the steps send, with the sampling parameters of each call site, and the
  plan \<^verbatim>\<open>_create_plan\<close> returns for the backend's answer.
\<close>

definition plan_request :: "pystr \<Rightarrow> pystr \<Rightarrow> request" where
  "plan_request requirements architecture =
     \<lparr>rq_prompt = planning_prompt requirements architecture, rq_max_tokens = 1500,
      rq_temperature = 3 / 10\<rparr>"

definition plan_of :: "pystr \<Rightarrow> pystr \<Rightarrow> pystr \<Rightarrow> plan" where
  "plan_of requirements architecture text =
     \<lparr>p_requirements = requirements, p_architecture = architecture, plan_text = text\<rparr>"

definition structure_request :: "plan \<Rightarrow> request" where
  "structure_request plan =
     \<lparr>rq_prompt = structure_prompt plan, rq_max_tokens = 2000, rq_temperature = 2 / 10\<rparr>"














subsection \<open>Instances for evaluation\<close>

text \<open>
  Instances for evaluating the steps on examples, with the fields as \<^verbatim>\<open>__init__\<close> sets
  them: a backend that gives the same answer to every request, and one that gives the
  answers of a list in turn and raises when the list is used up. \<open>passing_text\<close> is a
  text that \<^verbatim>\<open>_clean_code\<close> leaves as it is and that passes four of the five checks.
\<close>

definition answering :: "pystr \<Rightarrow> genius" where
  "answering text = \<lparr>backend = (\<lambda>n rq. Some text), quality_threshold = 9 / 10, max_retries = 3\<rparr>"



text \<open>
  \<open>sample_json_loads\<close> is not a model of the standard decoder. It is an instance of the
  parameter \<open>json_loads\<close> for the examples, and agrees with \<^verbatim>\<open>json.loads\<close> on the texts the
  examples give it: \<^verbatim>\<open>[]\<close> decodes to the empty list, \<^verbatim>\<open>{}\<close> to the empty dictionary, and
  the empty text and \<^verbatim>\<open>not json\<close> make the decoder raise. On other JSON texts, such as
  \<^verbatim>\<open>null\<close> or \<^verbatim>\<open>1\<close>, it does not agree with the decoder; no statement applies it to one.
  The other external parts are empty in the examples.
\<close>

definition sample_json_loads :: "pystr \<Rightarrow> pyval option" where
  "sample_json_loads s =
     (if s = py ''[]'' then Some (PyList [])
      else if s = py ''{}'' then Some (PyDict [])
      else None)"

definition sample_externals :: externals where
  "sample_externals =
     \<lparr>json_loads = sample_json_loads, format_value = (\<lambda>v. []), test_prompt_rest = [],
      doc_prompt = (\<lambda>plan fs. [])\<rparr>"

definition sample_plan :: plan where
  "sample_plan = \<lparr>p_requirements = py ''a task API'', p_architecture = py ''clean'', plan_text = []\<rparr>"

section \<open>Properties of the string and dictionary operations\<close>

lemma str_split_nonempty: "str_split sep s \<noteq> []"
  by (induction s) (auto split: list.splits)

lemma str_split_no_sep: "sep \<notin> set l \<Longrightarrow> str_split sep l = [l]"
  by (induction l) auto

lemma str_split_append_sep:
  "sep \<notin> set l \<Longrightarrow> str_split sep (l @ sep # rest) = l # str_split sep rest"
  by (induction l) auto

lemma str_split_join:
  "ls \<noteq> [] \<Longrightarrow> \<forall>l\<in>set ls. sep \<notin> set l \<Longrightarrow> str_split sep (str_join [sep] ls) = ls"
proof (induction "[sep]" ls rule: str_join.induct)
  case 1
  then show ?case by simp
next
  case (2 x)
  then show ?case by (simp add: str_split_no_sep)
next
  case (3 x y ys)
  then show ?case by (simp add: str_split_append_sep)
qed

lemma str_join_split: "str_join [sep] (str_split sep s) = s"
proof (induction s)
  case Nil
  then show ?case by simp
next
  case (Cons c cs)
  show ?case
  proof (cases "c = sep")
    case True
    obtain l ls where sp: "str_split sep cs = l # ls"
      using str_split_nonempty [of sep cs] by (cases "str_split sep cs") auto
    with Cons True show ?thesis by simp
  next
    case False
    obtain l ls where sp: "str_split sep cs = l # ls"
      using str_split_nonempty [of sep cs] by (cases "str_split sep cs") auto
    with Cons False show ?thesis by (cases ls) auto
  qed
qed

lemma str_split_lines_free: "l \<in> set (str_split sep s) \<Longrightarrow> sep \<notin> set l"
proof (induction s arbitrary: l)
  case Nil
  then show ?case by simp
next
  case (Cons c cs)
  then show ?case
    by (cases "str_split sep cs") (auto split: if_splits)
qed

lemma prefix_before_foreign:
  "prefix x (u @ c # v) \<Longrightarrow> c \<notin> set x \<Longrightarrow> prefix x u"
proof (induction u arbitrary: x)
  case Nil
  then show ?case by (cases x) auto
next
  case (Cons a u)
  then show ?case by (cases x) auto
qed

lemma str_replace_skip:
  "old \<noteq> [] \<Longrightarrow> \<not> prefix old (c # cs) \<Longrightarrow> str_replace old new (c # cs) = c # str_replace old new cs"
  by simp

lemma str_replace_hit:
  "old \<noteq> [] \<Longrightarrow> str_replace old new (old @ s) = new @ str_replace old new s"
  by (cases old) auto


lemma update_fresh: "k \<notin> fst ` set d \<Longrightarrow> AList.update k v d = d @ [(k, v)]"
  by (induction d) auto

lemma dict_update_fresh:
  "distinct (map fst (d @ ps)) \<Longrightarrow> dict_update d ps = d @ ps"
proof (induction ps arbitrary: d)
  case Nil
  then show ?case by (simp add: dict_update_def)
next
  case (Cons kv ps)
  have fresh: "fst kv \<notin> fst ` set d" using Cons.prems by auto
  have "distinct (map fst ((d @ [kv]) @ ps))" using Cons.prems by simp
  then have "dict_update (d @ [kv]) ps = (d @ [kv]) @ ps" by (rule Cons.IH)
  moreover have "dict_update d (kv # ps) = dict_update (d @ [kv]) ps"
    using update_fresh [OF fresh, of "snd kv"] by (simp add: dict_update_def)
  ultimately show ?case by simp
qed

lemma length_update_le: "length fs \<le> length (AList.update k v fs)"
  by (induction fs) auto

lemma update_other_nth:
  "i < length fs \<Longrightarrow> fst (fs ! i) \<noteq> k \<Longrightarrow> AList.update k v fs ! i = fs ! i"
proof (induction fs arbitrary: i)
  case Nil
  then show ?case by simp
next
  case (Cons e fs)
  then show ?case by (cases i) auto
qed

lemma update_same_nth:
  "distinct (map fst fs) \<Longrightarrow> i < length fs \<Longrightarrow> fst (fs ! i) = k \<Longrightarrow>
   AList.update k v fs ! i = (k, v)"
proof (induction fs arbitrary: i)
  case Nil
  then show ?case by simp
next
  case (Cons e fs)
  show ?case
  proof (cases i)
    case 0
    with Cons.prems show ?thesis by simp
  next
    case (Suc j)
    with Cons.prems have "fs ! j \<in> set fs" by simp
    then have "fst (fs ! j) \<in> fst ` set fs" by (rule imageI)
    with Cons.prems Suc have "fst e \<noteq> k" by auto
    with Cons Suc show ?thesis by simp
  qed
qed

lemma keys_single:
  "distinct (map fst xs) \<Longrightarrow> i < length xs \<Longrightarrow> xs ! i = (k, v) \<Longrightarrow>
   length (filter (\<lambda>e. fst e = k) xs) = 1 \<and> map_of xs k = Some v"
proof (induction xs arbitrary: i)
  case Nil
  then show ?case by simp
next
  case (Cons e xs)
  show ?case
  proof (cases i)
    case 0
    with Cons.prems have e: "e = (k, v)" by simp
    with Cons.prems have "k \<notin> fst ` set xs" by simp
    then have "filter (\<lambda>e. fst e = k) xs = []"
      by (auto simp: filter_empty_conv)
    with e show ?thesis by simp
  next
    case (Suc j)
    with Cons.prems have j: "j < length xs" "xs ! j = (k, v)" by simp_all
    then have "(k, v) \<in> set xs" by (metis nth_mem)
    then have "k \<in> fst ` set xs" by (metis fst_conv imageI)
    with Cons.prems have ne: "fst e \<noteq> k" by auto
    have "length (filter (\<lambda>e. fst e = k) xs) = 1 \<and> map_of xs k = Some v"
      using Cons.prems Suc by (intro Cons.IH [of j]) simp_all
    with ne show ?thesis by (cases e) simp
  qed
qed

text \<open>Unfolding sets for evaluating the model on concrete texts.\<close>

lemmas str_eval = py_def NL_def str_startswith_def str_endswith_def str_contains_def
  str_strip_def is_space_def sublist_code suffix_to_prefix

lemmas parser_eval = parse_project_files_def parse_lines_def parse_line_def parse_init_def
  FILE_START_def FILE_END_def in_file_def save_current_def marker_path_def

lemmas format_eval = serialize_project_def file_block_def file_start_line_def
  well_formed_block_def marker_safe_def ordinary_line_def


section \<open>Properties of the parser\<close>

subsection \<open>Markers and blocks\<close>

lemma eq3_val: "py ''==='' = [61, 61, 61]"
  by (simp add: py_def)

lemma file_start_val: "FILE_START = [61, 61, 61, 32, 68, 79, 83, 89, 65, 58]"
  by (simp add: FILE_START_def py_def)

lemma file_end_val: "FILE_END = [61, 61, 61, 32, 68, 79, 83, 89, 65, 32, 83, 79, 78, 85, 32, 61, 61, 61]"
  by (simp add: FILE_END_def py_def)

lemma file_start_line_val: "file_start_line p = FILE_START @ 32 # p @ [32, 61, 61, 61]"
  by (simp add: file_start_line_def file_start_val py_def)

lemma no_eq3_tail:
  assumes "\<not> sublist [61, 61, 61] (p :: nat list)"
  shows "\<not> prefix [61, 61, 61] (p @ 32 # v)"
proof
  assume "prefix [61, 61, 61] (p @ 32 # v)"
  then have "prefix [61, 61, 61] p"
    by (rule prefix_before_foreign) simp
  then have "sublist [61, 61, 61] p"
    by (rule prefix_imp_sublist)
  with assms show False by simp
qed

lemma sublist_tail: "\<not> sublist x (c # cs) \<Longrightarrow> \<not> sublist x cs"
  by (meson sublist_Cons_right)

lemma replace_eq3_path:
  "\<not> sublist [61, 61, 61] p \<Longrightarrow> str_replace [61, 61, 61] [] (p @ [32, 61, 61, 61]) = p @ [32]"
proof (induction p)
  case Nil
  then show ?case by simp
next
  case (Cons c cs)
  have np: "\<not> prefix [61, 61, 61] ((c # cs) @ 32 # [61, 61, 61])"
    using Cons.prems by (rule no_eq3_tail)
  have "\<not> sublist [61, 61, 61] cs"
    using Cons.prems by (rule sublist_tail)
  then have ih: "str_replace [61, 61, 61] [] (cs @ [32, 61, 61, 61]) = cs @ [32]"
    by (rule Cons.IH)
  have "str_replace [61, 61, 61] [] (c # (cs @ [32, 61, 61, 61])) = c # str_replace [61, 61, 61] [] (cs @ [32, 61, 61, 61])"
    using np by (intro str_replace_skip) simp_all
  with ih show ?case by simp
qed

lemma replace_start_path:
  "\<not> sublist [61, 61, 61] p \<Longrightarrow>
   str_replace FILE_START [] (p @ [32, 61, 61, 61]) = p @ [32, 61, 61, 61]"
proof (induction p)
  case Nil
  then show ?case by (simp add: file_start_val)
next
  case (Cons c cs)
  have np: "\<not> prefix [61, 61, 61] ((c # cs) @ 32 # [61, 61, 61])"
    using Cons.prems by (rule no_eq3_tail)
  have "prefix [61, 61, 61] FILE_START"
    by (simp add: file_start_val)
  then have np': "\<not> prefix FILE_START (c # (cs @ [32, 61, 61, 61]))"
    using np prefix_order.trans by fastforce
  have "\<not> sublist [61, 61, 61] cs"
    using Cons.prems by (rule sublist_tail)
  then have ih: "str_replace FILE_START [] (cs @ [32, 61, 61, 61]) = cs @ [32, 61, 61, 61]"
    by (rule Cons.IH)
  have "FILE_START \<noteq> []"
    by (simp add: file_start_val)
  then have "str_replace FILE_START [] (c # (cs @ [32, 61, 61, 61])) =
        c # str_replace FILE_START [] (cs @ [32, 61, 61, 61])"
    using np' by (rule str_replace_skip)
  with ih show ?case by simp
qed

lemma strip_padded:
  assumes "p \<noteq> []" "\<not> is_space (hd p)" "\<not> is_space (last p)"
  shows "str_strip (32 # p @ [32]) = p"
proof -
  obtain a as where p: "p = a # as" using assms(1) by (cases p) auto
  have s32: "is_space 32" by (simp add: is_space_def)
  have "dropWhile is_space (32 # p @ [32]) = p @ [32]"
    using assms(2) s32 by (simp add: p)
  moreover have "dropWhile is_space (32 # rev p) = rev p"
    using assms(1,3) s32 by (cases "rev p") (auto simp: last_rev hd_rev dest: arg_cong [where f = hd])
  ultimately show ?thesis by (simp add: str_strip_def)
qed

lemma marker_path_start_line:
  assumes "marker_safe p"
  shows "marker_path (file_start_line p) = p"
proof -
  have ns: "\<not> sublist [61, 61, 61] p"
    using assms by (simp add: marker_safe_def str_contains_def eq3_val)
  have ne: "FILE_START \<noteq> []" by (simp add: file_start_val)
  have "str_replace FILE_START [] (file_start_line p) =
        str_replace FILE_START [] (32 # (p @ [32, 61, 61, 61]))"
    using str_replace_hit [OF ne, of "[]" "32 # p @ [32, 61, 61, 61]"]
    by (simp add: file_start_line_val)
  also have "\<dots> = 32 # str_replace FILE_START [] (p @ [32, 61, 61, 61])"
    by (rule str_replace_skip [OF ne]) (simp add: file_start_val)
  also have "\<dots> = 32 # p @ [32, 61, 61, 61]"
    using ns by (simp add: replace_start_path)
  finally have r1: "str_replace FILE_START [] (file_start_line p) = 32 # p @ [32, 61, 61, 61]" .
  have "str_replace [61, 61, 61] [] (32 # (p @ [32, 61, 61, 61])) =
        32 # str_replace [61, 61, 61] [] (p @ [32, 61, 61, 61])"
    by (rule str_replace_skip) simp_all
  then have r2: "str_replace [61, 61, 61] [] (32 # p @ [32, 61, 61, 61]) = 32 # p @ [32]"
    using ns by (simp add: replace_eq3_path)
  have "marker_path (file_start_line p) = str_strip (32 # p @ [32])"
    unfolding marker_path_def r1 eq3_val r2 ..
  also have "\<dots> = p"
    using assms by (intro strip_padded) (simp_all add: marker_safe_def)
  finally show ?thesis .
qed

lemma start_line_startswith: "str_startswith (file_start_line p) FILE_START"
  by (simp add: str_startswith_def file_start_line_val)

lemma file_end_not_start: "\<not> str_startswith FILE_END FILE_START"
  by (simp add: str_startswith_def file_start_val file_end_val)

lemma parse_line_start:
  "marker_safe p \<Longrightarrow>
   parse_line st (file_start_line p) =
     \<lparr>files = save_current st, current_file = Some p, current_content = []\<rparr>"
  by (simp add: parse_line_def start_line_startswith marker_path_start_line)

lemma parse_line_end:
  "parse_line st FILE_END = \<lparr>files = save_current st, current_file = None, current_content = []\<rparr>"
  using file_end_not_start by (simp add: parse_line_def str_startswith_def)

lemma parse_ordinary_lines:
  "p \<noteq> [] \<Longrightarrow> \<forall>l\<in>set ls. ordinary_line l \<Longrightarrow>
   foldl parse_line \<lparr>files = fs, current_file = Some p, current_content = acc\<rparr> ls =
     \<lparr>files = fs, current_file = Some p, current_content = acc @ ls\<rparr>"
proof (induction ls arbitrary: acc)
  case Nil
  then show ?case by simp
next
  case (Cons l ls)
  have "parse_line \<lparr>files = fs, current_file = Some p, current_content = acc\<rparr> l =
        \<lparr>files = fs, current_file = Some p, current_content = acc @ [l]\<rparr>"
    using Cons.prems by (simp add: parse_line_def ordinary_line_def in_file_def)
  then show ?case using Cons by simp
qed

lemma parse_block:
  assumes "marker_safe p" and "\<forall>l\<in>set (str_split NL c). ordinary_line l"
  shows "foldl parse_line st (file_block (p, c)) =
         \<lparr>files = AList.update p c (save_current st), current_file = None, current_content = []\<rparr>"
proof -
  have ne: "p \<noteq> []" using assms(1) by (simp add: marker_safe_def)
  have "foldl parse_line st (file_block (p, c)) =
        parse_line (foldl parse_line
          \<lparr>files = save_current st, current_file = Some p, current_content = []\<rparr>
          (str_split NL c)) FILE_END"
    using assms(1) by (simp add: file_block_def parse_line_start)
  also have "\<dots> = parse_line
      \<lparr>files = save_current st, current_file = Some p, current_content = str_split NL c\<rparr> FILE_END"
    using parse_ordinary_lines [OF ne assms(2), of "save_current st" "[]"] by simp
  also have "\<dots> = \<lparr>files = AList.update p c (save_current st), current_file = None,
      current_content = []\<rparr>"
    using ne by (simp add: parse_line_end save_current_def str_join_split)
  finally show ?thesis .
qed

lemma parse_blocks:
  "list_all well_formed_block ps \<Longrightarrow>
   foldl parse_line \<lparr>files = fs, current_file = None, current_content = []\<rparr>
     (concat (map file_block ps)) =
   \<lparr>files = dict_update fs ps, current_file = None, current_content = []\<rparr>"
proof (induction ps arbitrary: fs)
  case Nil
  then show ?case by (simp add: dict_update_def)
next
  case (Cons pc ps)
  obtain p c where pc: "pc = (p, c)" by (cases pc)
  have wf: "marker_safe p" "\<forall>l\<in>set (str_split NL c). ordinary_line l"
    using Cons.prems by (simp_all add: pc well_formed_block_def list_all_iff)
  have "foldl parse_line \<lparr>files = fs, current_file = None, current_content = []\<rparr> (file_block pc) =
        \<lparr>files = AList.update p c fs, current_file = None, current_content = []\<rparr>"
    using parse_block [OF wf] by (simp add: pc save_current_def)
  then show ?case
    using Cons by (simp add: dict_update_def pc)
qed

lemma block_lines_free:
  "marker_safe (fst pc) \<Longrightarrow> l \<in> set (file_block pc) \<Longrightarrow> NL \<notin> set l"
  by (auto simp: file_block_def file_start_line_val file_start_val file_end_val NL_def
      marker_safe_def dest: str_split_lines_free)

lemma file_block_nonempty: "file_block pc \<noteq> []"
  by (simp add: file_block_def)

lemma parse_empty_text: "parse_project_files [] = []"
  by (simp add: parse_project_files_def parse_lines_def parse_line_def parse_init_def
      str_startswith_def file_start_val file_end_val in_file_def)

subsection \<open>Invariants of the loop\<close>

lemma save_current_distinct:
  "distinct (map fst (files st)) \<Longrightarrow> distinct (map fst (save_current st))"
  by (simp add: save_current_def distinct_update split: option.splits)

lemma parse_line_distinct:
  "distinct (map fst (files st)) \<Longrightarrow> distinct (map fst (files (parse_line st l)))"
  by (simp add: parse_line_def save_current_distinct)

lemma foldl_parse_line_distinct:
  "distinct (map fst (files st)) \<Longrightarrow> distinct (map fst (files (foldl parse_line st ls)))"
  by (induction ls arbitrary: st) (simp_all add: parse_line_distinct)

lemma save_current_keeps:
  assumes "holds_at p c i st"
  shows "i < length (save_current st) \<and> save_current st ! i = (p, c)"
proof (cases "current_file st")
  case None
  with assms show ?thesis by (simp add: save_current_def holds_at_def)
next
  case (Some q)
  with assms have "q \<noteq> p" by (simp add: holds_at_def)
  with assms Some show ?thesis
    using length_update_le [of "files st" q "str_join [NL] (current_content st)"]
    by (simp add: save_current_def holds_at_def update_other_nth)
qed

lemma parse_line_keeps:
  assumes "holds_at p c i st" and "opens_other p l"
  shows "holds_at p c i (parse_line st l)"
  using assms save_current_keeps [OF assms(1)]
  by (auto simp: parse_line_def holds_at_def opens_other_def)

lemma foldl_parse_line_keeps:
  "holds_at p c i st \<Longrightarrow> list_all (opens_other p) ls \<Longrightarrow>
   holds_at p c i (foldl parse_line st ls)"
  by (induction ls arbitrary: st) (simp_all add: parse_line_keeps)

lemma save_current_absent:
  "absent p st \<Longrightarrow> p \<notin> fst ` set (save_current st)"
  by (auto simp: absent_def save_current_def dom_update split: option.splits)

lemma parse_line_absent:
  "absent p st \<Longrightarrow> opens_other p l \<Longrightarrow> absent p (parse_line st l)"
  using save_current_absent [of p st]
  by (auto simp: parse_line_def absent_def opens_other_def)

lemma foldl_parse_line_absent:
  "absent p st \<Longrightarrow> list_all (opens_other p) ls \<Longrightarrow> absent p (foldl parse_line st ls)"
  by (induction ls arbitrary: st) (simp_all add: parse_line_absent)

lemma parse_line_keeps_keys:
  "fst ` set (files st) \<subseteq> fst ` set (files (parse_line st l))"
  by (auto simp: parse_line_def save_current_def dom_update split: option.splits)

lemma foldl_parse_line_keeps_keys:
  "fst ` set (files st) \<subseteq> fst ` set (files (foldl parse_line st ls))"
proof (induction ls arbitrary: st)
  case Nil
  then show ?case by simp
next
  case (Cons l ls)
  have "fst ` set (files st) \<subseteq> fst ` set (files (parse_line st l))"
    by (rule parse_line_keeps_keys)
  also have "\<dots> \<subseteq> fst ` set (files (foldl parse_line (parse_line st l) ls))"
    by (rule Cons.IH)
  finally show ?case by simp
qed

subsection \<open>End of stream inside a file block\<close>

text \<open>
  C1. A stream that ends inside a file block: the start marker of \<^verbatim>\<open>a.py\<close>, one line of
  content, and no end marker. The specification has the file emitted with the line
  accumulated. The loop ends with the file open and its line accumulated, so that the
  assignment both marker branches perform would store it; the function returns without
  it, and its bundle is empty.
\<close>

theorem unterminated_final_file_is_dropped:
  "parse_project_files (py ''=== DOSYA: a.py ===\<newline>x = 1'') = [] \<and>
   parse_lines (str_split NL (py ''=== DOSYA: a.py ===\<newline>x = 1'')) =
     \<lparr>files = [], current_file = Some (py ''a.py''), current_content = [py ''x = 1'']\<rparr> \<and>
   save_current (parse_lines (str_split NL (py ''=== DOSYA: a.py ===\<newline>x = 1''))) =
     [(py ''a.py'', py ''x = 1'')]"
  by (simp add: parser_eval str_eval)

text \<open>
  The specification's tolerance example, file A without an end marker followed by file B
  up to the end of the stream: A is saved when B opens, B is lost.
\<close>

lemma unclosed_last_of_two_is_dropped:
  "parse_project_files
     (py ''=== DOSYA: a.py ===\<newline>x = 1\<newline>=== DOSYA: b.py ===\<newline>y = 2'') =
   [(py ''a.py'', py ''x = 1'')]"
  by (simp add: parser_eval str_eval)

subsection \<open>Round trip\<close>

text \<open>
  C2, in the form that holds of the code. For any list of (path, content) pairs with distinct marker-safe paths
  whose content lines are ordinary, parsing the serialized list returns exactly the pairs,
  in order, each content identical to the original. The parser trims nothing: a content
  that starts or ends with blank lines comes back with them.
\<close>

theorem parse_serialized_project:
  assumes "distinct (map fst ps)" and "list_all well_formed_block ps"
  shows "parse_project_files (serialize_project ps) = ps"
proof (cases ps)
  case Nil
  then show ?thesis
    by (simp add: serialize_project_def parse_empty_text)
next
  case (Cons pc ps')
  let ?ls = "concat (map file_block ps)"
  have ne: "?ls \<noteq> []" by (simp add: Cons file_block_nonempty)
  have free: "\<forall>l\<in>set ?ls. NL \<notin> set l"
    using assms(2) by (auto simp: well_formed_block_def list_all_iff dest: block_lines_free)
  have "str_split NL (serialize_project ps) = ?ls"
    unfolding serialize_project_def using ne free by (rule str_split_join)
  then have "parse_project_files (serialize_project ps) = dict_update [] ps"
    using parse_blocks [OF assms(2), of "[]"]
    by (simp add: parse_project_files_def parse_lines_def parse_init_def)
  also have "\<dots> = ps"
    using dict_update_fresh [of "[]" ps] assms(1) by simp
  finally show ?thesis .
qed

theorem parse_serialized_project_witness:
  "parse_project_files (serialize_project
      [(py ''src/a.py'', py ''\<newline>x = 1\<newline>''), (py ''b.py'', py ''y'')]) =
   [(py ''src/a.py'', py ''\<newline>x = 1\<newline>''), (py ''b.py'', py ''y'')]"
proof -
  have d: "distinct (map fst [(py ''src/a.py'', py ''\<newline>x = 1\<newline>''), (py ''b.py'', py ''y'')])"
    by (simp add: py_def)
  have w: "list_all well_formed_block
      [(py ''src/a.py'', py ''\<newline>x = 1\<newline>''), (py ''b.py'', py ''y'')]"
    by (simp add: format_eval str_eval FILE_START_def FILE_END_def)
  show ?thesis
    using parse_serialized_project [OF d w] .
qed

text \<open>
  C2 as the specification words it, with every content trimmed of its leading and trailing
  blank lines, fails: a file whose content starts with a blank line is returned untrimmed.
\<close>

theorem parse_trims_nothing_counterexample:
  "parse_project_files (serialize_project [(py ''a.py'', py ''\<newline>x = 1'')]) \<noteq>
   spec_trimmed_bundle [(py ''a.py'', py ''\<newline>x = 1'')]"
  by (simp add: parser_eval format_eval str_eval spec_trimmed_bundle_def
      spec_trim_blank_lines_def blank_line_def)

subsection \<open>A start marker inside a file block\<close>

text \<open>
  C3. When a start marker arrives while a file \<open>q\<close> is open, the parser stores \<open>q\<close> with
  the lines accumulated so far joined by newlines, opens the path of the new marker and
  starts its content empty. The entry of \<open>q\<close> stays in the bundle whatever follows, the
  next ordinary line becomes the first line of the new file (when the marker names a
  path), and a stream that ends right after the marker returns \<open>q\<close> with its content.
\<close>

theorem start_marker_saves_open_file:
  assumes "current_file (parse_lines pre) = Some q" and "q \<noteq> []"
    and "str_startswith l FILE_START"
  shows "parse_lines (pre @ [l]) =
           \<lparr>files = AList.update q (str_join [NL] (current_content (parse_lines pre)))
              (files (parse_lines pre)),
            current_file = Some (marker_path l), current_content = []\<rparr> \<and>
         map_of (files (parse_lines (pre @ [l]))) q =
           Some (str_join [NL] (current_content (parse_lines pre))) \<and>
         (\<forall>rest. q \<in> fst ` set (files (parse_lines (pre @ l # rest)))) \<and>
         (\<forall>l2. marker_path l \<noteq> [] \<and> ordinary_line l2 \<longrightarrow>
            parse_lines (pre @ [l, l2]) =
              (parse_lines (pre @ [l]))\<lparr>current_content := [l2]\<rparr>) \<and>
         (list_all (\<lambda>l. NL \<notin> set l) (pre @ [l]) \<longrightarrow>
            map_of (parse_project_files (str_join [NL] (pre @ [l]))) q =
              Some (str_join [NL] (current_content (parse_lines pre))))"
proof -
  let ?st = "parse_lines pre"
  let ?saved = "str_join [NL] (current_content ?st)"
  have step: "parse_lines (pre @ [l]) =
      \<lparr>files = AList.update q ?saved (files ?st), current_file = Some (marker_path l),
       current_content = []\<rparr>"
    using assms by (simp add: parse_lines_def parse_line_def save_current_def)
  have saved: "map_of (files (parse_lines (pre @ [l]))) q = Some ?saved"
    by (simp add: step update_conv')
  have "q \<in> fst ` set (files (parse_lines (pre @ [l])))"
    by (simp add: step dom_update)
  moreover have "fst ` set (files (parse_lines (pre @ [l]))) \<subseteq>
      fst ` set (files (parse_lines (pre @ l # rest)))" for rest
    using foldl_parse_line_keeps_keys [of "parse_lines (pre @ [l])" rest]
    by (simp add: parse_lines_def)
  ultimately have kept: "q \<in> fst ` set (files (parse_lines (pre @ l # rest)))" for rest
    by blast
  have next_line: "parse_lines (pre @ [l, l2]) = (parse_lines (pre @ [l]))\<lparr>current_content := [l2]\<rparr>"
    if "marker_path l \<noteq> []" "ordinary_line l2" for l2
  proof -
    have "parse_lines (pre @ [l, l2]) = parse_line (parse_lines (pre @ [l])) l2"
      by (simp add: parse_lines_def)
    then show ?thesis
      using that by (simp add: step parse_line_def ordinary_line_def in_file_def)
  qed
  have whole: "map_of (parse_project_files (str_join [NL] (pre @ [l]))) q = Some ?saved"
    if "list_all (\<lambda>l. NL \<notin> set l) (pre @ [l])"
  proof -
    have "str_split NL (str_join [NL] (pre @ [l])) = pre @ [l]"
      using that by (intro str_split_join) (simp_all add: list_all_iff)
    then show ?thesis
      using saved by (simp add: parse_project_files_def)
  qed
  show ?thesis
    using step saved kept next_line whole by blast
qed

theorem start_marker_saves_open_file_witness:
  "parse_lines [py ''=== DOSYA: a.py ==='', py ''x = 1'', py ''=== DOSYA: b.py ===''] =
     \<lparr>files = [(py ''a.py'', py ''x = 1'')], current_file = Some (py ''b.py''),
      current_content = []\<rparr> \<and>
   parse_lines [py ''=== DOSYA: a.py ==='', py ''x = 1'', py ''=== DOSYA: b.py ==='', py ''y''] =
     \<lparr>files = [(py ''a.py'', py ''x = 1'')], current_file = Some (py ''b.py''),
      current_content = [py ''y'']\<rparr>"
proof -
  let ?pre = "[py ''=== DOSYA: a.py ==='', py ''x = 1'']"
  let ?l = "py ''=== DOSYA: b.py ===''"
  have pre: "parse_lines ?pre =
      \<lparr>files = [], current_file = Some (py ''a.py''), current_content = [py ''x = 1'']\<rparr>"
    by (simp add: parser_eval str_eval)
  have h1: "current_file (parse_lines ?pre) = Some (py ''a.py'')"
    by (simp add: pre)
  have h2: "py ''a.py'' \<noteq> []"
    by (simp add: py_def)
  have h3: "str_startswith ?l FILE_START"
    by (simp add: FILE_START_def str_eval)
  have m: "marker_path ?l = py ''b.py''"
    by (simp add: marker_path_def FILE_START_def str_eval)
  have o: "ordinary_line (py ''y'')"
    by (simp add: ordinary_line_def FILE_START_def FILE_END_def str_eval)
  have ne: "py ''b.py'' \<noteq> []"
    by (simp add: py_def)
  show ?thesis
    using start_marker_saves_open_file [OF h1 h2 h3] m o ne
    by (simp add: pre)
qed

subsection \<open>Two blocks for one path\<close>

lemma two_blocks_same_path:
  assumes safe: "marker_safe p"
    and c1: "list_all ordinary_line (str_split NL c1)"
    and c2: "list_all ordinary_line (str_split NL c2)"
    and lines: "list_all (\<lambda>l. NL \<notin> set l) (pre @ mid @ post)"
    and others: "list_all (opens_other p) (pre @ mid @ post)"
  shows "distinct (map fst (parse_project_files
           (str_join [NL] (pre @ file_block (p, c1) @ mid @ file_block (p, c2) @ post)))) \<and>
         length (filter (\<lambda>e. fst e = p) (parse_project_files
           (str_join [NL] (pre @ file_block (p, c1) @ mid @ file_block (p, c2) @ post)))) = 1 \<and>
         map_of (parse_project_files
           (str_join [NL] (pre @ file_block (p, c1) @ mid @ file_block (p, c2) @ post))) p = Some c2 \<and>
         parse_project_files (str_join [NL] (pre @ file_block (p, c1))) =
           files (parse_lines (pre @ [file_start_line p])) @ [(p, c1)] \<and>
         length (files (parse_lines (pre @ [file_start_line p]))) <
           length (parse_project_files
             (str_join [NL] (pre @ file_block (p, c1) @ mid @ file_block (p, c2) @ post))) \<and>
         parse_project_files
           (str_join [NL] (pre @ file_block (p, c1) @ mid @ file_block (p, c2) @ post)) !
           length (files (parse_lines (pre @ [file_start_line p]))) = (p, c2)"
proof -
  let ?b1 = "file_block (p, c1)" and ?b2 = "file_block (p, c2)"
  let ?all = "pre @ ?b1 @ mid @ ?b2 @ post"
  let ?s0 = "foldl parse_line parse_init pre"
  let ?F0 = "save_current ?s0"
  let ?k = "length ?F0"
  have wf1: "\<forall>l\<in>set (str_split NL c1). ordinary_line l"
    and wf2: "\<forall>l\<in>set (str_split NL c2). ordinary_line l"
    using c1 c2 by (simp_all add: list_all_iff)
  have o_pre: "list_all (opens_other p) pre" and o_mid: "list_all (opens_other p) mid"
    and o_post: "list_all (opens_other p) post"
    using others by simp_all
  \<comment> \<open>the lines of the text are the lines given\<close>
  have free_b: "\<And>c l. l \<in> set (file_block (p, c)) \<Longrightarrow> NL \<notin> set l"
    using block_lines_free [of "(p, c)" for c] safe by simp
  have free_all: "\<forall>l\<in>set ?all. NL \<notin> set l"
    using lines free_b by (auto simp: list_all_iff)
  have split_all: "str_split NL (str_join [NL] ?all) = ?all"
    using free_all by (intro str_split_join) (simp_all add: file_block_nonempty)
  have free_1: "\<forall>l\<in>set (pre @ ?b1). NL \<notin> set l"
    using lines free_b by (auto simp: list_all_iff)
  have split_1: "str_split NL (str_join [NL] (pre @ ?b1)) = pre @ ?b1"
    using free_1 by (intro str_split_join) (simp_all add: file_block_nonempty)
  \<comment> \<open>before the first block\<close>
  have "absent p parse_init" by (simp add: absent_def parse_init_def)
  then have abs0: "absent p ?s0" using o_pre by (rule foldl_parse_line_absent)
  have d0: "distinct (map fst (files ?s0))"
    by (rule foldl_parse_line_distinct) (simp add: parse_init_def)
  have dF0: "distinct (map fst ?F0)" using d0 by (rule save_current_distinct)
  have fresh: "p \<notin> fst ` set ?F0" using abs0 by (rule save_current_absent)
  have F0: "files (parse_lines (pre @ [file_start_line p])) = ?F0"
    using safe by (simp add: parse_lines_def parse_line_start)
  \<comment> \<open>the first block\<close>
  let ?s1 = "foldl parse_line ?s0 ?b1"
  have s1: "?s1 = \<lparr>files = ?F0 @ [(p, c1)], current_file = None, current_content = []\<rparr>"
    using parse_block [OF safe wf1, of ?s0] update_fresh [OF fresh, of c1] by simp
  have first: "parse_project_files (str_join [NL] (pre @ ?b1)) = ?F0 @ [(p, c1)]"
    using s1 by (simp add: parse_project_files_def parse_lines_def split_1)
  have h1: "holds_at p c1 ?k ?s1"
    by (simp add: s1 holds_at_def)
  have d1: "distinct (map fst (files ?s1))"
    using d0 by (rule foldl_parse_line_distinct)
  \<comment> \<open>between the blocks\<close>
  let ?s2 = "foldl parse_line ?s1 mid"
  have h2: "holds_at p c1 ?k ?s2" using h1 o_mid by (rule foldl_parse_line_keeps)
  have d2: "distinct (map fst (files ?s2))" using d1 by (rule foldl_parse_line_distinct)
  have k2: "?k < length (save_current ?s2)" "save_current ?s2 ! ?k = (p, c1)"
    using save_current_keeps [OF h2] by simp_all
  have dS2: "distinct (map fst (save_current ?s2))" using d2 by (rule save_current_distinct)
  \<comment> \<open>the second block\<close>
  let ?s3 = "foldl parse_line ?s2 ?b2"
  have s3: "?s3 = \<lparr>files = AList.update p c2 (save_current ?s2), current_file = None,
      current_content = []\<rparr>"
    by (rule parse_block [OF safe wf2])
  have "AList.update p c2 (save_current ?s2) ! ?k = (p, c2)"
    using dS2 k2 by (intro update_same_nth) simp_all
  moreover have "?k < length (AList.update p c2 (save_current ?s2))"
    using k2(1) length_update_le [of "save_current ?s2" p c2] by simp
  ultimately have h3: "holds_at p c2 ?k ?s3"
    by (simp add: s3 holds_at_def)
  \<comment> \<open>after the second block\<close>
  let ?s4 = "foldl parse_line ?s3 post"
  have h4: "holds_at p c2 ?k ?s4" using h3 o_post by (rule foldl_parse_line_keeps)
  have res: "parse_project_files (str_join [NL] ?all) = files ?s4"
    by (simp add: parse_project_files_def parse_lines_def split_all)
  have d3: "distinct (map fst (files ?s3))" using d2 by (rule foldl_parse_line_distinct)
  have d4: "distinct (map fst (files ?s4))" using d3 by (rule foldl_parse_line_distinct)
  have at: "?k < length (files ?s4)" "files ?s4 ! ?k = (p, c2)"
    using h4 by (simp_all add: holds_at_def)
  have single: "length (filter (\<lambda>e. fst e = p) (files ?s4)) = 1 \<and> map_of (files ?s4) p = Some c2"
    using d4 at by (rule keys_single)
  show ?thesis
    unfolding res first F0 using d4 at single by simp
qed

text \<open>
  C4. A stream with two complete blocks for the path \<open>p\<close>, no other line opening \<open>p\<close>:
  the bundle has distinct keys, exactly one entry for \<open>p\<close>, and its content is the second
  block's. The stream cut after the first block yields a bundle whose last entry is \<open>p\<close>
  with the first content; in the bundle of the whole stream the entry at that same index
  is \<open>p\<close> with the second content.
\<close>

theorem duplicate_path_keeps_first_position:
  assumes "marker_safe p"
    and "list_all ordinary_line (str_split NL c1)"
    and "list_all ordinary_line (str_split NL c2)"
    and "list_all (\<lambda>l. NL \<notin> set l) (pre @ mid @ post)"
    and "list_all (opens_other p) (pre @ mid @ post)"
  shows "distinct (map fst (parse_project_files (two_block_stream pre p c1 mid c2 post))) \<and>
         length (filter (\<lambda>e. fst e = p)
           (parse_project_files (two_block_stream pre p c1 mid c2 post))) = 1 \<and>
         map_of (parse_project_files (two_block_stream pre p c1 mid c2 post)) p = Some c2 \<and>
         parse_project_files (first_block_stream pre p c1) \<noteq> [] \<and>
         last (parse_project_files (first_block_stream pre p c1)) = (p, c1) \<and>
         length (parse_project_files (first_block_stream pre p c1)) \<le>
           length (parse_project_files (two_block_stream pre p c1 mid c2 post)) \<and>
         parse_project_files (two_block_stream pre p c1 mid c2 post) !
           (length (parse_project_files (first_block_stream pre p c1)) - 1) = (p, c2)"
  using two_blocks_same_path [OF assms]
  by (simp add: first_block_stream_def two_block_stream_def)

theorem duplicate_path_keeps_first_position_witness:
  "parse_project_files (two_block_stream [py ''Files:''] (py ''a.py'') (py ''x = 1'')
      (file_block (py ''b.py'', py ''y'')) (py ''x = 2'') []) ! 0 = (py ''a.py'', py ''x = 2'') \<and>
   parse_project_files (first_block_stream [py ''Files:''] (py ''a.py'') (py ''x = 1'')) =
     [(py ''a.py'', py ''x = 1'')] \<and>
   map_of (parse_project_files (two_block_stream [py ''Files:''] (py ''a.py'') (py ''x = 1'')
      (file_block (py ''b.py'', py ''y'')) (py ''x = 2'') [])) (py ''a.py'') = Some (py ''x = 2'')"
proof -
  have h1: "marker_safe (py ''a.py'')"
    by (simp add: marker_safe_def str_eval)
  have h2: "list_all ordinary_line (str_split NL (py ''x = 1''))"
    by (simp add: ordinary_line_def FILE_START_def FILE_END_def str_eval)
  have h3: "list_all ordinary_line (str_split NL (py ''x = 2''))"
    by (simp add: ordinary_line_def FILE_START_def FILE_END_def str_eval)
  have h4: "list_all (\<lambda>l. NL \<notin> set l) ([py ''Files:''] @ file_block (py ''b.py'', py ''y'') @ [])"
    by (simp add: format_eval FILE_END_def str_eval)
  have h5: "list_all (opens_other (py ''a.py'')) ([py ''Files:''] @ file_block (py ''b.py'', py ''y'') @ [])"
    by (simp add: opens_other_def format_eval marker_path_def FILE_START_def FILE_END_def str_eval)
  have first: "parse_project_files (first_block_stream [py ''Files:''] (py ''a.py'') (py ''x = 1'')) =
     [(py ''a.py'', py ''x = 1'')]"
    by (simp add: first_block_stream_def parser_eval format_eval str_eval)
  show ?thesis
    using duplicate_path_keeps_first_position [OF h1 h2 h3 h4 h5] first by simp
qed

section \<open>Properties of the planned generation\<close>

subsection \<open>The quality check\<close>

text \<open>
  C5. \<^verbatim>\<open>_check_quality\<close> evaluates five predicates: a triple-quote marker, a type
  annotation marker, an error handling marker, more than 100 characters, and neither
  \<^verbatim>\<open>TODO\<close> nor \<^verbatim>\<open>FIXME\<close>. The score is the number of true predicates over 5, and the check
  passes exactly when the score is at least 0.8, that is when at least 4 of the 5 hold.
\<close>

theorem check_quality_four_of_five:
  "map fst (quality_checks code) =
     [py ''has_docstrings'', py ''has_type_hints'', py ''has_error_handling'',
      py ''reasonable_length'', py ''no_placeholder''] \<and>
   map snd (quality_checks code) =
     [str_contains [34, 34, 34] code \<or> str_contains [39, 39, 39] code,
      str_contains (py ''->'') code \<or> str_contains (py '': '') code,
      str_contains (py ''try:'') code \<or> str_contains (py ''except'') code,
      length code > 100,
      \<not> str_contains (py ''TODO'') code \<and> \<not> str_contains (py ''FIXME'') code] \<and>
   quality_score code = real (length (filter snd (quality_checks code))) / 5 \<and>
   check_quality self code = (quality_score code \<ge> 8 / 10) \<and>
   check_quality self code = (4 \<le> length (filter snd (quality_checks code)))"
proof -
  have len: "length (quality_checks code) = 5"
    by (simp add: quality_checks_def)
  have score: "quality_score code = real (length (filter snd (quality_checks code))) / 5"
    by (simp add: quality_score_def len)
  have "(real n / 5 \<ge> 8 / 10) = (4 \<le> n)" for n :: nat
    by auto
  then have "check_quality self code = (4 \<le> length (filter snd (quality_checks code)))"
    by (simp add: check_quality_def score)
  then show ?thesis
    using score by (simp add: check_quality_def quality_checks_def)
qed

text \<open>Three true predicates fail the check, four pass it.\<close>

theorem check_quality_four_of_five_witness:
  "\<not> check_quality (answering []) (py ''try: x -> y'') \<and>
   length (filter snd (quality_checks (py ''try: x -> y''))) = 3 \<and>
   check_quality (answering []) ([34, 34, 34] @ py ''try: x -> y'') \<and>
   length (filter snd (quality_checks ([34, 34, 34] @ py ''try: x -> y''))) = 4"
proof -
  have three: "length (filter snd (quality_checks (py ''try: x -> y''))) = 3"
    by (simp add: quality_checks_def str_eval)
  have four: "length (filter snd (quality_checks ([34, 34, 34] @ py ''try: x -> y''))) = 4"
    by (simp add: quality_checks_def str_eval)
  have "check_quality (answering []) (py ''try: x -> y'') =
      (4 \<le> length (filter snd (quality_checks (py ''try: x -> y''))))"
    using check_quality_four_of_five [of "py ''try: x -> y''" "answering []"] by blast
  moreover have "check_quality (answering []) ([34, 34, 34] @ py ''try: x -> y'') =
      (4 \<le> length (filter snd (quality_checks ([34, 34, 34] @ py ''try: x -> y''))))"
    using check_quality_four_of_five [of "[34, 34, 34] @ py ''try: x -> y''" "answering []"]
    by blast
  ultimately show ?thesis
    using three four by simp
qed

subsection \<open>The fields \<open>quality_threshold\<close> and \<open>max_retries\<close>\<close>

lemma generate_same_backend:
  "backend s1 = backend s2 \<Longrightarrow> generate s1 = generate s2"
  by (intro ext) (simp add: generate_def)

lemma check_quality_any_instance: "check_quality s1 = check_quality s2"
  by (intro ext) (simp add: check_quality_def)

lemma steps_same_backend:
  assumes "backend s1 = backend s2"
  shows "create_plan s1 = create_plan s2"
    and "design_structure ex s1 = design_structure ex s2"
    and "generate_file_step ex s1 = generate_file_step ex s2"
    and "regenerate_with_feedback s1 = regenerate_with_feedback s2"
    and "generate_documentation ex s1 = generate_documentation ex s2"
  using generate_same_backend [OF assms]
  by (intro ext, simp add: create_plan_def design_structure_def generate_file_step_def
      regenerate_with_feedback_def generate_documentation_def)+

lemma generate_one_same_backend:
  assumes "backend s1 = backend s2"
  shows "generate_one ex s1 plan fs item calls = generate_one ex s2 plan fs item calls"
  by (simp add: generate_one_def steps_same_backend [OF assms]
      check_quality_any_instance [of s1 s2] split: prod.splits sum.splits)

lemma generate_all_same_backend:
  assumes "backend s1 = backend s2"
  shows "generate_all ex s1 plan fs items calls = generate_all ex s2 plan fs items calls"
  by (induction items arbitrary: fs calls)
    (simp_all add: generate_one_same_backend [OF assms] split: prod.splits sum.splits)

lemma tests_loop_same_backend:
  assumes "backend s1 = backend s2"
  shows "tests_loop ex s1 items tf calls = tests_loop ex s2 items tf calls"
  by (induction items arbitrary: tf calls)
    (simp_all add: generate_same_backend [OF assms] split: prod.splits sum.splits)

lemma add_steps_same_backend:
  assumes "backend s1 = backend s2"
  shows "add_tests ex s1 include_tests fs calls = add_tests ex s2 include_tests fs calls"
    and "add_readme ex s1 plan fs calls = add_readme ex s2 plan fs calls"
  by (simp_all add: add_tests_def add_readme_def generate_comprehensive_tests_def
      tests_loop_same_backend [OF assms] steps_same_backend [OF assms])

text \<open>
  C10. Two instances with the same backend, whatever their \<open>quality_threshold\<close> and
  \<open>max_retries\<close>, give the same quality verdict on every text, treat every file
  specification alike and return the same result of the whole planned generation, with
  the same requests sent: no step reads either field.
\<close>

theorem quality_fields_never_read:
  assumes "backend s1 = backend s2"
  shows "check_quality s1 code = check_quality s2 code \<and>
         generate_one ex s1 plan fs item calls = generate_one ex s2 plan fs item calls \<and>
         generate_with_planning ex s1 requirements include_tests architecture calls =
         generate_with_planning ex s2 requirements include_tests architecture calls"
proof -
  have "generate_with_planning ex s1 requirements include_tests architecture calls =
        generate_with_planning ex s2 requirements include_tests architecture calls"
    by (simp add: generate_with_planning_def steps_same_backend [OF assms]
        generate_all_same_backend [OF assms] add_steps_same_backend [OF assms]
        split: prod.splits sum.splits)
  then show ?thesis
    using check_quality_any_instance [of s1 s2] generate_one_same_backend [OF assms, of ex]
    by simp
qed

theorem quality_fields_never_read_witness:
  "check_quality (answering []) (py ''x'') =
     check_quality ((answering [])\<lparr>quality_threshold := 0, max_retries := 0\<rparr>) (py ''x'') \<and>
   generate_with_planning sample_externals (answering []) (py ''a task API'') True (py ''clean'') [] =
     generate_with_planning sample_externals
       ((answering [])\<lparr>quality_threshold := 0, max_retries := 0\<rparr>)
       (py ''a task API'') True (py ''clean'') []"
proof -
  have "backend (answering []) = backend ((answering [])\<lparr>quality_threshold := 0, max_retries := 0\<rparr>)"
    by simp
  from quality_fields_never_read [OF this] show ?thesis by blast
qed

subsection \<open>One file, at most two requests\<close>


lemma generate_Inr:
  "backend self (length calls) rq = Some answer \<Longrightarrow>
   generate self rq calls = (Inr answer, calls @ [rq])"
  by (simp add: generate_def)











subsection \<open>The structure's fallback\<close>

text \<open>
  What the step does once the backend has answered the structure request: it returns the
  default structure, a dictionary with the two entries \<^verbatim>\<open>main. py\<close> and \<^verbatim>\<open>utils.py\<close>, when
  the decoder raises on the answer, and otherwise what the decoder returned.
\<close>

lemma design_structure_fallback:
  assumes "backend self (length calls) (structure_request plan) = Some structure_text"
  shows "(json_loads ext structure_text = None \<longrightarrow>
            design_structure ext self plan calls =
              (Inr default_structure, calls @ [structure_request plan])) \<and>
         (\<forall>structure. json_loads ext structure_text = Some structure \<longrightarrow>
            design_structure ext self plan calls =
              (Inr structure, calls @ [structure_request plan])) \<and>
         items_of default_structure =
           Inr [(py ''main. py'', PyDict [(py ''description'', PyStr (py ''Main application file''))]),
                (py ''utils.py'', PyDict [(py ''description'', PyStr (py ''Utility functions''))])]"
  using generate_Inr [OF assms]
  by (simp add: design_structure_def structure_request_def items_of_def default_structure_def)

lemma design_structure_fallback_examples:
  "design_structure sample_externals (answering (py ''not json'')) sample_plan [] =
     (Inr default_structure, [structure_request sample_plan]) \<and>
   design_structure sample_externals (answering []) sample_plan [] =
     (Inr default_structure, [structure_request sample_plan]) \<and>
   design_structure sample_externals (answering (py ''{}'')) sample_plan [] =
     (Inr (PyDict []), [structure_request sample_plan])"
proof -
  have a: "backend (answering t) (length ([] :: request list)) (structure_request sample_plan) = Some t" for t
    by (simp add: answering_def)
  have n1: "json_loads sample_externals (py ''not json'') = None"
    by (simp add: sample_externals_def sample_json_loads_def py_def)
  have n2: "json_loads sample_externals [] = None"
    by (simp add: sample_externals_def sample_json_loads_def py_def)
  have n3: "json_loads sample_externals (py ''{}'') = Some (PyDict [])"
    by (simp add: sample_externals_def sample_json_loads_def py_def)
  show ?thesis
    using design_structure_fallback [OF a, of sample_externals "py ''not json''"]
      design_structure_fallback [OF a, of sample_externals "[]"]
      design_structure_fallback [OF a, of sample_externals "py ''{}''"] n1 n2 n3
    by simp
qed

text \<open>
  C7. An answer of the wrong shape is to fall back to the default structure like any
  other answer the step cannot use. The answer \<^verbatim>\<open>[]\<close> is JSON and the decoder returns the
  empty list without raising. Then the step returns that list, not the default structure
  and not a dictionary, against the step's own result type; the loop over
  \<^verbatim>\<open>structure.items()\<close> raises, and the planned generation ends with that error after
  its second request.
\<close>

theorem wrong_shape_answer_is_returned:
  assumes "json_loads ext (py ''[]'') = Some (PyList [])"
    and "backend self (length calls) (plan_request requirements architecture) = Some text"
    and "backend self (Suc (length calls))
           (structure_request (plan_of requirements architecture text)) = Some (py ''[]'')"
  shows "design_structure ext self (plan_of requirements architecture text)
           (calls @ [plan_request requirements architecture]) =
           (Inr (PyList []),
            calls @ [plan_request requirements architecture,
                     structure_request (plan_of requirements architecture text)]) \<and>
         PyList [] \<noteq> default_structure \<and>
         items_of (PyList []) = Inl AttributeError \<and>
         generate_with_planning ext self requirements include_tests architecture calls =
           (Inl AttributeError,
            calls @ [plan_request requirements architecture,
                     structure_request (plan_of requirements architecture text)])"
proof -
  let ?plan = "plan_of requirements architecture text"
  let ?calls1 = "calls @ [plan_request requirements architecture]"
  have p: "create_plan self requirements architecture calls = (Inr ?plan, ?calls1)"
    using generate_Inr [OF assms(2)] by (simp add: create_plan_def plan_request_def plan_of_def)
  have "backend self (length ?calls1) (structure_request ?plan) = Some (py ''[]'')"
    using assms(3) by simp
  then have g: "generate self (structure_request ?plan) ?calls1 =
      (Inr (py ''[]''), ?calls1 @ [structure_request ?plan])"
    by (rule generate_Inr)
  have d: "design_structure ext self ?plan ?calls1 =
      (Inr (PyList []), ?calls1 @ [structure_request ?plan])"
    using g assms(1) by (simp add: design_structure_def structure_request_def)
  have i: "items_of (PyList []) = Inl AttributeError"
    by (simp add: items_of_def)
  have "generate_with_planning ext self requirements include_tests architecture calls =
      (Inl AttributeError, ?calls1 @ [structure_request ?plan])"
    by (simp add: generate_with_planning_def p d i)
  then show ?thesis
    using d i by (simp add: default_structure_def)
qed

theorem wrong_shape_answer_is_returned_witness:
  "generate_with_planning sample_externals (answering (py ''[]'')) (py ''a task API'') True
     (py ''clean'') [] =
     (Inl AttributeError,
      [plan_request (py ''a task API'') (py ''clean''),
       structure_request (plan_of (py ''a task API'') (py ''clean'') (py ''[]''))]) \<and>
   design_structure sample_externals (answering (py ''[]''))
     (plan_of (py ''a task API'') (py ''clean'') (py ''[]''))
     [plan_request (py ''a task API'') (py ''clean'')] =
     (Inr (PyList []),
      [plan_request (py ''a task API'') (py ''clean''),
       structure_request (plan_of (py ''a task API'') (py ''clean'') (py ''[]''))])"
proof -
  have h1: "json_loads sample_externals (py ''[]'') = Some (PyList [])"
    by (simp add: sample_externals_def sample_json_loads_def)
  have h2: "backend (answering (py ''[]'')) (length ([] :: request list))
      (plan_request (py ''a task API'') (py ''clean'')) = Some (py ''[]'')"
    by (simp add: answering_def)
  have h3: "backend (answering (py ''[]'')) (Suc (length ([] :: request list)))
      (structure_request (plan_of (py ''a task API'') (py ''clean'') (py ''[]''))) = Some (py ''[]'')"
    by (simp add: answering_def)
  show ?thesis
    using wrong_shape_answer_is_returned [OF h1 h2 h3] by simp
qed

subsection \<open>The feedback prompt\<close>



subsection \<open>Companion tests\<close>













end
